theory Spec2Isabelle
  imports Main
begin

section \<open>Python values used by \<^verbatim>\<open>app.py\<close>\<close>

text \<open>
  A Python \<^verbatim>\<open>str\<close> is a sequence of Unicode code points, so it is modelled as a list of
  natural numbers; \<open>lit\<close> turns an ASCII literal into such a list. The status markers of
  the messages (cross mark, direct hit, bullet) are code points beyond one byte and are
  written by number.
\<close>

type_synonym pystr = "nat list"

definition lit :: "string \<Rightarrow> pystr" where
  "lit s = map of_char s"

definition cross_mark :: pystr where
  "cross_mark = [0x274C]"

definition direct_hit :: pystr where
  "direct_hit = [0x1F3AF]"

definition bullet :: pystr where
  "bullet = [0x2022]"

definition newline :: pystr where
  "newline = [0x0A]"

text \<open>
  \<^verbatim>\<open>str.strip()\<close> without an argument removes the code points for which
  \<^verbatim>\<open>str.isspace\<close> holds from both ends.
\<close>

definition py_isspace :: "nat \<Rightarrow> bool" where
  "py_isspace c \<longleftrightarrow>
     (0x09 \<le> c \<and> c \<le> 0x0D) \<or> (0x1C \<le> c \<and> c \<le> 0x20) \<or> c = 0x85 \<or> c = 0xA0 \<or>
     c = 0x1680 \<or> (0x2000 \<le> c \<and> c \<le> 0x200A) \<or> c = 0x2028 \<or> c = 0x2029 \<or>
     c = 0x202F \<or> c = 0x205F \<or> c = 0x3000"

definition py_strip :: "pystr \<Rightarrow> pystr" where
  "py_strip s = rev (dropWhile py_isspace (rev (dropWhile py_isspace s)))"

text \<open>
  \<^verbatim>\<open>str.lower()\<close>: the ASCII capitals move to their small letters. Two code points
  beyond ASCII have a lower case inside ASCII and are written out: capital I with dot
  above (\<open>0x130\<close>, which becomes \<open>i\<close> followed by the combining dot \<open>0x307\<close>) and the
  Kelvin sign (\<open>0x212A\<close>, which becomes \<open>k\<close>). Every other code point beyond ASCII
  lower-cases to code points beyond ASCII; the model leaves those unchanged, which cannot
  change whether an ASCII text occurs in the result.
\<close>

definition lower_cp :: "nat \<Rightarrow> pystr" where
  "lower_cp c =
     (if 0x41 \<le> c \<and> c \<le> 0x5A then [c + 0x20]
      else if c = 0x130 then [0x69, 0x307]
      else if c = 0x212A then [0x6B]
      else [c])"

definition py_lower :: "pystr \<Rightarrow> pystr" where
  "py_lower s = concat (map lower_cp s)"

text \<open>The substring test \<^verbatim>\<open>needle in hay\<close> on strings.\<close>

fun py_in :: "pystr \<Rightarrow> pystr \<Rightarrow> bool" where
  "py_in needle [] = (needle = [])"
| "py_in needle (c # cs) = (take (length needle) (c # cs) = needle \<or> py_in needle cs)"

text \<open>
  An exception is an instance of \<^verbatim>\<open>Exception\<close>; these are the faults that
  \<^verbatim>\<open>except Exception\<close> catches. The exceptions that end the interpreter
  (\<^verbatim>\<open>KeyboardInterrupt\<close>, \<^verbatim>\<open>SystemExit\<close>) are not runtime faults of a collaborator
  and are not modelled. A computation that may raise returns \<open>exn + 'a\<close>, with \<open>Inl\<close>
  for the raised exception.

  Forming the text of an exception, by \<^verbatim>\<open>str(e)\<close> or by formatting it in an f-string,
  calls its \<^verbatim>\<open>__str__\<close> method, which may itself raise. \<open>Exception m\<close> is an exception
  whose text is \<open>m\<close>; \<open>Unprintable e\<close> is an exception whose \<^verbatim>\<open>__str__\<close> raises \<open>e\<close>.
\<close>

datatype exn = Exception pystr | Unprintable exn

fun py_str :: "exn \<Rightarrow> exn + pystr" where
  "py_str (Exception m) = Inr m"
| "py_str (Unprintable e) = Inl e"


text \<open>
  A PIL image, as far as the program looks at it: its \<^verbatim>\<open>mode\<close> and the pixel data,
  which the program never inspects.
\<close>

record 'px image =
  mode :: pystr
  pixels :: 'px

text \<open>
  One candidate of the pipeline's result is a dictionary from keys to texts; the program
  reads the key \<^verbatim>\<open>'generated_text'\<close> of the first one.
\<close>

type_synonym candidate = "pystr \<rightharpoonup> pystr"

section \<open>The collaborators\<close>

text \<open>
  The libraries the program calls are parameters of the model. \<open>'h\<close> is the type of
  pipeline objects, \<open>'px\<close> of pixel data and \<open>'w\<close> the state of everything outside the
  program (network, disk, device memory), which every call of a collaborator may read and
  change: so a collaborator may answer differently at each call.
  \<^item> \<open>cuda_is_available\<close> is \<^verbatim>\<open>torch.cuda.is_available()\<close>;
  \<^item> \<open>pipeline task model device\<close> is \<^verbatim>\<open>transformers.pipeline(task=, model=, device=)\<close>;
  \<^item> \<open>pil_convert img m\<close> is the pixel data of \<^verbatim>\<open>img.convert(m)\<close>;
  \<^item> \<open>call_pipeline h img\<close> is the call \<^verbatim>\<open>h(img)\<close> of a pipeline object.
\<close>

record ('h, 'px, 'w) env =
  cuda_is_available :: bool
  pipeline :: "pystr \<Rightarrow> pystr \<Rightarrow> int \<Rightarrow> 'w \<Rightarrow> (exn + 'h) \<times> 'w"
  pil_convert :: "'px image \<Rightarrow> pystr \<Rightarrow> exn + 'px"
  call_pipeline :: "'h \<Rightarrow> 'px image \<Rightarrow> 'w \<Rightarrow> (exn + candidate list) \<times> 'w"

text \<open>
  The calls the program makes to the model library are recorded in order, with their
  arguments: this is the call counter of a stub collaborator.
\<close>

datatype ('h, 'px) event =
  Pipeline pystr pystr int
| Infer 'h "'px image"

record ('h, 'px, 'w) world =
  ext :: 'w
  calls :: "('h, 'px) event list"

text \<open>The fields of an \<^verbatim>\<open>ImageCaptioningApp\<close> object.\<close>

record 'h app =
  caption_pipeline :: "'h option"
  device :: int
  model_name :: pystr

section \<open>\<^verbatim>\<open>ImageCaptioningApp\<close>\<close>

text \<open>
  The calls of the logger write diagnostics only; what is kept of them is the forming of
  their argument where that formats an exception (lines 84 and 99), since it may raise.
  The method \<^verbatim>\<open>_get_device\<close> is \<open>get_device\<close> here, and \<^verbatim>\<open>__init__\<close> is \<open>init\<close>.
\<close>

definition get_device :: "('h, 'px, 'w) env \<Rightarrow> int" where
  "get_device env = (if cuda_is_available env then 0 else - 1)"

definition init :: "('h, 'px, 'w) env \<Rightarrow> 'h app" where
  "init env =
     \<lparr>caption_pipeline = None,
      device = get_device env,
      model_name = lit ''Salesforce/blip-image-captioning-base''\<rparr>"

text \<open>One call \<^verbatim>\<open>pipeline(task="image-to-text", model=name, device=dev)\<close>.\<close>

definition task :: pystr where
  "task = lit ''image-to-text''"

definition construct ::
  "('h, 'px, 'w) env \<Rightarrow> pystr \<Rightarrow> int \<Rightarrow> ('h, 'px, 'w) world \<Rightarrow> (exn + 'h) \<times> ('h, 'px, 'w) world"
where
  "construct env name dev wd =
     (case pipeline env task name dev (ext wd) of
        (r, x) \<Rightarrow> (r, wd\<lparr>ext := x, calls := calls wd @ [Pipeline task name dev]\<rparr>))"

text \<open>
  \<^verbatim>\<open>load_model\<close>. The field \<^verbatim>\<open>caption_pipeline\<close> is assigned only when
  \<^verbatim>\<open>pipeline\<close> returns; in the fallback the field \<^verbatim>\<open>device\<close> is assigned after
  the second construction has returned. Both handlers first format the exception they
  caught for the logger (lines 84 and 99); an exception raised there is raised inside a
  handler, so it leaves \<^verbatim>\<open>load_model\<close>.
\<close>

definition load_model ::
  "('h, 'px, 'w) env \<Rightarrow> 'h app \<Rightarrow> ('h, 'px, 'w) world \<Rightarrow> (exn + bool) \<times> 'h app \<times> ('h, 'px, 'w) world"
where
  "load_model env app wd =
     (case caption_pipeline app of
        Some h \<Rightarrow> (Inr True, app, wd)
      | None \<Rightarrow>
          (case construct env (model_name app) (device app) wd of
             (Inr h, wd1) \<Rightarrow> (Inr True, app\<lparr>caption_pipeline := Some h\<rparr>, wd1)
           | (Inl e, wd1) \<Rightarrow>
               (case py_str e of
                  Inl e' \<Rightarrow> (Inl e', app, wd1)
                | Inr logged \<Rightarrow>
                    if device app = 0 then
                      (case construct env (model_name app) (- 1) wd1 of
                         (Inr h, wd2) \<Rightarrow>
                           (Inr True, app\<lparr>caption_pipeline := Some h, device := - 1\<rparr>, wd2)
                       | (Inl e2, wd2) \<Rightarrow>
                           (case py_str e2 of
                              Inl e3 \<Rightarrow> (Inl e3, app, wd2)
                            | Inr logged2 \<Rightarrow> (Inr False, app, wd2)))
                    else (Inr False, app, wd1))))"

text \<open>The texts \<^verbatim>\<open>generate_caption\<close> returns.\<close>

definition msg_upload :: pystr where
  "msg_upload = cross_mark @ lit '' Please upload an image first!''"

definition msg_load_failed :: pystr where
  "msg_load_failed =
     cross_mark @ lit '' Failed to load AI model. This might be due to:'' @ newline @
     bullet @ lit '' Internet connection issues'' @ newline @
     bullet @ lit '' Insufficient memory'' @ newline @
     bullet @ lit '' Missing dependencies'' @ newline @ newline @
     lit ''Please try restarting the application.''"

definition msg_no_caption :: pystr where
  "msg_no_caption = cross_mark @ lit '' Could not generate a caption for this image.''"

definition msg_out_of_memory :: pystr where
  "msg_out_of_memory =
     cross_mark @ lit '' Out of memory error. Try:'' @ newline @
     bullet @ lit '' Using a smaller image'' @ newline @
     bullet @ lit '' Restarting the application'' @ newline @
     bullet @ lit '' Using CPU instead of GPU''"

definition msg_network :: pystr where
  "msg_network = cross_mark @ lit '' Network error. Please check your internet connection.''"

definition msg_processing :: "pystr \<Rightarrow> pystr" where
  "msg_processing error_msg = cross_mark @ lit '' Processing error: '' @ error_msg"

definition msg_success :: "pystr \<Rightarrow> pystr" where
  "msg_success caption = direct_hit @ lit '' '' @ caption"

text \<open>
  \<^verbatim>\<open>image.convert('RGB')\<close>: the image PIL returns has the mode that was asked for.
\<close>

definition convert :: "('h, 'px, 'w) env \<Rightarrow> 'px image \<Rightarrow> pystr \<Rightarrow> exn + 'px image" where
  "convert env img m =
     (case pil_convert env img m of
        Inl e \<Rightarrow> Inl e
      | Inr px \<Rightarrow> Inr \<lparr>mode = m, pixels = px\<rparr>)"

text \<open>Lines 129 to 131: the image is converted unless its mode is \<^verbatim>\<open>'RGB'\<close>.\<close>

definition ensure_rgb :: "('h, 'px, 'w) env \<Rightarrow> 'px image \<Rightarrow> exn + 'px image" where
  "ensure_rgb env img = (if mode img \<noteq> lit ''RGB'' then convert env img (lit ''RGB'') else Inr img)"

text \<open>
  Line 134, \<^verbatim>\<open>self.caption_pipeline(image)\<close>. Calling the field while it is
  \<^verbatim>\<open>None\<close> raises a \<^verbatim>\<open>TypeError\<close>.
\<close>

definition run_pipeline ::
  "('h, 'px, 'w) env \<Rightarrow> 'h app \<Rightarrow> 'px image \<Rightarrow> ('h, 'px, 'w) world \<Rightarrow>
     (exn + candidate list) \<times> ('h, 'px, 'w) world"
where
  "run_pipeline env app img wd =
     (case caption_pipeline app of
        None \<Rightarrow> (Inl (Exception ([0x27] @ lit ''NoneType'' @ [0x27] @ lit '' object is not callable'')), wd)
      | Some h \<Rightarrow>
          (case call_pipeline env h img (ext wd) of
             (r, x) \<Rightarrow> (r, wd\<lparr>ext := x, calls := calls wd @ [Infer h img]\<rparr>)))"

text \<open>
  Lines 137 to 147. A first candidate without the key \<^verbatim>\<open>'generated_text'\<close> raises a
  \<^verbatim>\<open>KeyError\<close>, whose text is the key in quotes.
\<close>

definition extract_caption :: "candidate list \<Rightarrow> exn + pystr" where
  "extract_caption result =
     (case result of
        [] \<Rightarrow> Inr msg_no_caption
      | c # _ \<Rightarrow>
          (case c (lit ''generated_text'') of
             None \<Rightarrow> Inl (Exception ([0x27] @ lit ''generated_text'' @ [0x27]))
           | Some caption \<Rightarrow> Inr (msg_success (py_strip caption))))"

text \<open>The body of the \<^verbatim>\<open>try\<close> block of \<^verbatim>\<open>generate_caption\<close>.\<close>

definition caption_try ::
  "('h, 'px, 'w) env \<Rightarrow> 'px image \<Rightarrow> 'h app \<Rightarrow> ('h, 'px, 'w) world \<Rightarrow>
     (exn + pystr) \<times> ('h, 'px, 'w) world"
where
  "caption_try env img app wd =
     (case ensure_rgb env img of
        Inl e \<Rightarrow> (Inl e, wd)
      | Inr rgb \<Rightarrow>
          (case run_pipeline env app rgb wd of
             (Inl e, wd1) \<Rightarrow> (Inl e, wd1)
           | (Inr result, wd1) \<Rightarrow> (extract_caption result, wd1)))"

text \<open>
  The handler of that block, lines 149 to 162. It starts with \<^verbatim>\<open>error_msg = str(e)\<close>
  (line 150); an exception raised there leaves \<^verbatim>\<open>generate_caption\<close>.
\<close>

definition caption_except :: "exn \<Rightarrow> exn + pystr" where
  "caption_except e =
     (case py_str e of
        Inl e' \<Rightarrow> Inl e'
      | Inr error_msg \<Rightarrow>
          Inr (if py_in (lit ''out of memory'') (py_lower error_msg) then msg_out_of_memory
               else if py_in (lit ''connection'') (py_lower error_msg) then msg_network
               else msg_processing error_msg))"

text \<open>
  \<^verbatim>\<open>generate_caption\<close>; its argument \<^verbatim>\<open>image\<close> is \<open>upload\<close> here, \<open>None\<close> when no image
  was supplied. The call of \<^verbatim>\<open>load_model\<close> stands outside the \<^verbatim>\<open>try\<close> block, so an
  exception leaving it would leave \<^verbatim>\<open>generate_caption\<close> too.
\<close>

definition generate_caption ::
  "('h, 'px, 'w) env \<Rightarrow> 'px image option \<Rightarrow> 'h app \<Rightarrow> ('h, 'px, 'w) world \<Rightarrow>
     (exn + pystr) \<times> 'h app \<times> ('h, 'px, 'w) world"
where
  "generate_caption env upload app wd =
     (case upload of
        None \<Rightarrow> (Inr msg_upload, app, wd)
      | Some img \<Rightarrow>
          (case load_model env app wd of
             (Inl e, app1, wd1) \<Rightarrow> (Inl e, app1, wd1)
           | (Inr loaded, app1, wd1) \<Rightarrow>
               if \<not> loaded then (Inr msg_load_failed, app1, wd1)
               else
                 (case caption_try env img app1 wd1 of
                    (Inr s, wd2) \<Rightarrow> (Inr s, app1, wd2)
                  | (Inl e, wd2) \<Rightarrow> (caption_except e, app1, wd2))))"

section \<open>Sequences of calls\<close>

text \<open>
  \<open>load_model_repeat env n\<close> calls \<^verbatim>\<open>load_model\<close> \<open>n\<close> times in a row on the same object
  and lists, for each call, what it returned and the pipeline object cached after it.
\<close>

fun load_model_repeat ::
  "('h, 'px, 'w) env \<Rightarrow> nat \<Rightarrow> 'h app \<Rightarrow> ('h, 'px, 'w) world \<Rightarrow>
     ((exn + bool) \<times> 'h option) list \<times> 'h app \<times> ('h, 'px, 'w) world"
where
  "load_model_repeat env 0 app wd = ([], app, wd)"
| "load_model_repeat env (Suc n) app wd =
     (case load_model env app wd of
        (r, app1, wd1) \<Rightarrow>
          (case load_model_repeat env n app1 wd1 of
             (rs, app2, wd2) \<Rightarrow> ((r, caption_pipeline app1) # rs, app2, wd2)))"

text \<open>
  The interface built by \<^verbatim>\<open>create_interface\<close> calls \<^verbatim>\<open>generate_caption\<close> once for each
  submission; \<open>serve\<close> is a run of the process over a list of submissions.
\<close>

fun serve ::
  "('h, 'px, 'w) env \<Rightarrow> 'px image option list \<Rightarrow> 'h app \<Rightarrow> ('h, 'px, 'w) world \<Rightarrow>
     (exn + pystr) list \<times> 'h app \<times> ('h, 'px, 'w) world"
where
  "serve env [] app wd = ([], app, wd)"
| "serve env (upload # uploads) app wd =
     (case generate_caption env upload app wd of
        (r, app1, wd1) \<Rightarrow>
          (case serve env uploads app1 wd1 of
             (rs, app2, wd2) \<Rightarrow> (r # rs, app2, wd2)))"

section \<open>Several callers of \<^verbatim>\<open>load_model\<close>\<close>

text \<open>
  \<^verbatim>\<open>load_model\<close> takes no lock, so between any two of its actions another caller working
  on the same object may run. The places of a caller are the points between those actions;
  what a caller holds in local variables (the device it read, the pipeline it built, the
  exception it caught) belongs to its place.
  \<^item> \<open>AtCheck\<close>: before the test of \<^verbatim>\<open>self.caption_pipeline\<close> (line 66);
  \<^item> \<open>AtConstruct\<close>: the test found \<^verbatim>\<open>None\<close>; before the arguments of \<^verbatim>\<open>pipeline\<close> are read (line 77);
  \<^item> \<open>AtCall d\<close>: \<^verbatim>\<open>self.device\<close> was read as \<open>d\<close>; before the call of \<^verbatim>\<open>pipeline\<close> (line 74);
  \<^item> \<open>AtStore h\<close>: \<^verbatim>\<open>pipeline\<close> returned \<open>h\<close>; before the assignment to \<^verbatim>\<open>self.caption_pipeline\<close> (line 74);
  \<^item> \<open>AtHandler e\<close>: \<^verbatim>\<open>pipeline\<close> raised \<open>e\<close>; before it is formatted for the logger (line 84);
  \<^item> \<open>AtTest\<close>: before the test \<^verbatim>\<open>self.device == 0\<close> (line 87);
  \<^item> \<open>AtRetry\<close>: before the call of \<^verbatim>\<open>pipeline\<close> with device \<open>- 1\<close> (line 90);
  \<^item> \<open>AtRetryStore h\<close>: that call returned \<open>h\<close>; before the assignment to \<^verbatim>\<open>self.caption_pipeline\<close> (line 90);
  \<^item> \<open>AtSetDevice\<close>: before the assignment \<^verbatim>\<open>self.device = -1\<close> (line 95);
  \<^item> \<open>AtRetryHandler e\<close>: the call raised \<open>e\<close>; before it is formatted for the logger (line 99);
  \<^item> \<open>Returned b\<close>: the caller has returned \<open>b\<close>; \<open>Raised e\<close>: it has raised \<open>e\<close>.

  One step is one action: a single read or write of a field of the object, or a single call
  of \<^verbatim>\<open>pipeline\<close>. The field \<^verbatim>\<open>model_name\<close> is assigned only by \<^verbatim>\<open>__init__\<close>, so it does not
  matter at which step it is read.
\<close>

datatype 'h pc =
  AtCheck
| AtConstruct
| AtCall int
| AtStore 'h
| AtHandler exn
| AtTest
| AtRetry
| AtRetryStore 'h
| AtSetDevice
| AtRetryHandler exn
| Returned bool
| Raised exn

definition load_model_step ::
  "('h, 'px, 'w) env \<Rightarrow> 'h pc \<Rightarrow> 'h app \<Rightarrow> ('h, 'px, 'w) world \<Rightarrow>
     'h pc \<times> 'h app \<times> ('h, 'px, 'w) world"
where
  "load_model_step env p app wd =
     (case p of
        AtCheck \<Rightarrow>
          (case caption_pipeline app of
             Some h \<Rightarrow> (Returned True, app, wd)
           | None \<Rightarrow> (AtConstruct, app, wd))
      | AtConstruct \<Rightarrow> (AtCall (device app), app, wd)
      | AtCall d \<Rightarrow>
          (case construct env (model_name app) d wd of
             (Inr h, wd1) \<Rightarrow> (AtStore h, app, wd1)
           | (Inl e, wd1) \<Rightarrow> (AtHandler e, app, wd1))
      | AtStore h \<Rightarrow> (Returned True, app\<lparr>caption_pipeline := Some h\<rparr>, wd)
      | AtHandler e \<Rightarrow>
          (case py_str e of
             Inl e' \<Rightarrow> (Raised e', app, wd)
           | Inr logged \<Rightarrow> (AtTest, app, wd))
      | AtTest \<Rightarrow> (if device app = 0 then (AtRetry, app, wd) else (Returned False, app, wd))
      | AtRetry \<Rightarrow>
          (case construct env (model_name app) (- 1) wd of
             (Inr h, wd2) \<Rightarrow> (AtRetryStore h, app, wd2)
           | (Inl e2, wd2) \<Rightarrow> (AtRetryHandler e2, app, wd2))
      | AtRetryStore h \<Rightarrow> (AtSetDevice, app\<lparr>caption_pipeline := Some h\<rparr>, wd)
      | AtSetDevice \<Rightarrow> (Returned True, app\<lparr>device := - 1\<rparr>, wd)
      | AtRetryHandler e2 \<Rightarrow>
          (case py_str e2 of
             Inl e3 \<Rightarrow> (Raised e3, app, wd)
           | Inr logged2 \<Rightarrow> (Returned False, app, wd))
      | Returned b \<Rightarrow> (Returned b, app, wd)
      | Raised e \<Rightarrow> (Raised e, app, wd))"

text \<open>
  A schedule names, step by step, the caller that moves next; a number that names no
  caller is skipped.
\<close>

fun run_callers ::
  "('h, 'px, 'w) env \<Rightarrow> nat list \<Rightarrow> 'h pc list \<Rightarrow> 'h app \<Rightarrow> ('h, 'px, 'w) world \<Rightarrow>
     'h pc list \<times> 'h app \<times> ('h, 'px, 'w) world"
where
  "run_callers env [] pcs app wd = (pcs, app, wd)"
| "run_callers env (i # sched) pcs app wd =
     (if i < length pcs then
        (case load_model_step env (pcs ! i) app wd of
           (p, app1, wd1) \<Rightarrow> run_callers env sched (pcs[i := p]) app1 wd1)
      else run_callers env sched pcs app wd)"

text \<open>
  A caller that has passed the test and has not yet made its first call of
  \<^verbatim>\<open>pipeline\<close>.
\<close>

fun before_call :: "'h pc \<Rightarrow> bool" where
  "before_call AtConstruct = True"
| "before_call (AtCall d) = True"
| "before_call p = False"

text \<open>
  The pipeline a caller assigns to \<^verbatim>\<open>self.caption_pipeline\<close> in its next step, if that step
  is such an assignment, and the pipelines assigned during a run, in the order of the
  assignments.
\<close>

fun stores :: "'h pc \<Rightarrow> 'h list" where
  "stores (AtStore h) = [h]"
| "stores (AtRetryStore h) = [h]"
| "stores p = []"

fun stored ::
  "('h, 'px, 'w) env \<Rightarrow> nat list \<Rightarrow> 'h pc list \<Rightarrow> 'h app \<Rightarrow> ('h, 'px, 'w) world \<Rightarrow> 'h list"
where
  "stored env [] pcs app wd = []"
| "stored env (i # sched) pcs app wd =
     (if i < length pcs then
        (case load_model_step env (pcs ! i) app wd of
           (p, app1, wd1) \<Rightarrow> stores (pcs ! i) @ stored env sched (pcs[i := p]) app1 wd1)
      else stored env sched pcs app wd)"

text \<open>What a caller running alone ends with when \<^verbatim>\<open>load_model\<close> gives \<open>r\<close>.\<close>

fun outcome :: "exn + bool \<Rightarrow> 'h pc" where
  "outcome (Inr b) = Returned b"
| "outcome (Inl e) = Raised e"

text \<open>The events that are constructions of a pipeline.\<close>

definition constructions :: "('h, 'px) event list \<Rightarrow> bool" where
  "constructions evs \<longleftrightarrow> list_all (\<lambda>ev. case ev of Pipeline t m d \<Rightarrow> True | Infer h im \<Rightarrow> False) evs"

section \<open>Stub collaborators\<close>

text \<open>
  Concrete collaborators on which the model is run. Pipeline objects and pixel data are
  numbers, and the outside world is a clock that every call advances. \<open>build dev w\<close> is
  what constructing a pipeline on device \<open>dev\<close> at time \<open>w\<close> gives, \<open>answer img w\<close> what the
  pipeline object answers for an image.
\<close>

definition stub ::
  "(int \<Rightarrow> nat \<Rightarrow> exn + nat) \<Rightarrow> (nat image \<Rightarrow> nat \<Rightarrow> exn + candidate list) \<Rightarrow> (nat, nat, nat) env"
where
  "stub build answer =
     \<lparr>cuda_is_available = True,
      pipeline = (\<lambda>t m d w. (build d w, Suc w)),
      pil_convert = (\<lambda>img m. Inr (pixels img)),
      call_pipeline = (\<lambda>h img w. (answer img w, Suc w))\<rparr>"

text \<open>
  Construction always gives the pipeline object \<open>7\<close>; the object answers with no
  candidate, raises a fault with a given text, or answers with one candidate.
\<close>

definition stub_empty :: "(nat, nat, nat) env" where
  "stub_empty = stub (\<lambda>d w. Inr 7) (\<lambda>img w. Inr [])"

definition stub_raises :: "pystr \<Rightarrow> (nat, nat, nat) env" where
  "stub_raises error_msg = stub (\<lambda>d w. Inr 7) (\<lambda>img w. Inl (Exception error_msg))"

definition stub_caption :: "pystr \<Rightarrow> (nat, nat, nat) env" where
  "stub_caption caption = stub (\<lambda>d w. Inr 7) (\<lambda>img w. Inr [[lit ''generated_text'' \<mapsto> caption]])"



text \<open>The world before any call, and a greyscale image (mode \<^verbatim>\<open>L\<close>).\<close>

definition world0 :: "(nat, nat, nat) world" where
  "world0 = \<lparr>ext = 0, calls = []\<rparr>"

definition grey :: "nat image" where
  "grey = \<lparr>mode = lit ''L'', pixels = 5\<rparr>"

text \<open>
  Construction fails on the accelerated device only, fails on every device, or gives a
  new pipeline object at each call (the time of the call).
\<close>

definition stub_gpu_fails :: "(nat, nat, nat) env" where
  "stub_gpu_fails =
     stub (\<lambda>d w. if d = 0 then Inl (Exception (lit ''CUDA error'')) else Inr 7) (\<lambda>img w. Inr [])"

definition stub_down :: "(nat, nat, nat) env" where
  "stub_down = stub (\<lambda>d w. Inl (Exception (lit ''Connection refused''))) (\<lambda>img w. Inr [])"

definition stub_fresh :: "(nat, nat, nat) env" where
  "stub_fresh = stub (\<lambda>d w. Inr w) (\<lambda>img w. Inr [])"

text \<open>An object on a host without an accelerated device, before any model is loaded.\<close>

definition cpu_app :: "nat app" where
  "cpu_app =
     \<lparr>caption_pipeline = None, device = - 1,
      model_name = lit ''Salesforce/blip-image-captioning-base''\<rparr>"

section \<open>Auxiliary facts\<close>

lemma construct_calls:
  "construct env name dev wd = (r, wd1) \<Longrightarrow> calls wd1 = calls wd @ [Pipeline task name dev]"
  by (auto simp: construct_def split: prod.splits)

lemma construct_eq:
  "pipeline env task name dev (ext wd) = (r, x) \<Longrightarrow>
   construct env name dev wd = (r, wd\<lparr>ext := x, calls := calls wd @ [Pipeline task name dev]\<rparr>)"
  by (simp add: construct_def)




lemma load_model_cached:
  "caption_pipeline app = Some h \<Longrightarrow> load_model env app wd = (Inr True, app, wd)"
  by (simp add: load_model_def)

lemma load_model_True:
  "load_model env app wd = (Inr True, app1, wd1) \<Longrightarrow> caption_pipeline app1 \<noteq> None"
  by (auto simp: load_model_def split: option.splits prod.splits sum.splits if_splits)

lemma load_model_device:
  "load_model env app wd = (r, app1, wd1) \<Longrightarrow> device app = - 1 \<Longrightarrow> device app1 = - 1"
  by (auto simp: load_model_def split: option.splits prod.splits sum.splits if_splits)

lemma py_in_iff: "py_in needle hay \<longleftrightarrow> (\<exists>ps ss. hay = ps @ needle @ ss)"
proof (induction hay)
  case Nil
  then show ?case by auto
next
  case (Cons c cs)
  have "take (length needle) (c # cs) = needle \<longleftrightarrow> (\<exists>ss. c # cs = needle @ ss)"
    by (metis append_eq_conv_conj append_take_drop_id)
  moreover have "(\<exists>ps ss. c # cs = ps @ needle @ ss) \<longleftrightarrow>
      (\<exists>ss. c # cs = needle @ ss) \<or> (\<exists>ps ss. cs = ps @ needle @ ss)"
  proof
    assume "\<exists>ps ss. c # cs = ps @ needle @ ss"
    then obtain ps ss where e: "c # cs = ps @ needle @ ss" by blast
    show "(\<exists>ss. c # cs = needle @ ss) \<or> (\<exists>ps ss. cs = ps @ needle @ ss)"
    proof (cases ps)
      case Nil
      with e show ?thesis by auto
    next
      case (Cons p ps')
      with e have "cs = ps' @ needle @ ss" by simp
      then show ?thesis by blast
    qed
  next
    assume "(\<exists>ss. c # cs = needle @ ss) \<or> (\<exists>ps ss. cs = ps @ needle @ ss)"
    then show "\<exists>ps ss. c # cs = ps @ needle @ ss"
    proof
      assume "\<exists>ss. c # cs = needle @ ss"
      then obtain ss where "c # cs = [] @ needle @ ss" by auto
      then show ?thesis by blast
    next
      assume "\<exists>ps ss. cs = ps @ needle @ ss"
      then obtain ps ss where "c # cs = (c # ps) @ needle @ ss" by auto
      then show ?thesis by blast
    qed
  qed
  ultimately show ?case using Cons.IH by simp
qed

lemma py_strip_decomp:
  "\<exists>l r. s = l @ py_strip s @ r \<and> (\<forall>c \<in> set l. py_isspace c) \<and> (\<forall>c \<in> set r. py_isspace c)"
proof -
  let ?l = "takeWhile py_isspace s"
  let ?m = "dropWhile py_isspace s"
  let ?r = "rev (takeWhile py_isspace (rev ?m))"
  have "rev ?m = takeWhile py_isspace (rev ?m) @ dropWhile py_isspace (rev ?m)"
    by simp
  then have "?m = py_strip s @ ?r"
    by (metis py_strip_def rev_append rev_rev_ident)
  then have "s = ?l @ py_strip s @ ?r"
    by (metis takeWhile_dropWhile_id)
  moreover have "\<forall>c \<in> set ?l. py_isspace c"
    by (auto dest: set_takeWhileD)
  moreover have "\<forall>c \<in> set ?r. py_isspace c"
    by (auto dest: set_takeWhileD)
  ultimately show ?thesis by blast
qed

lemma py_strip_hd: "py_strip s \<noteq> [] \<Longrightarrow> \<not> py_isspace (hd (py_strip s))"
proof -
  assume ne: "py_strip s \<noteq> []"
  let ?m = "dropWhile py_isspace s"
  let ?d = "dropWhile py_isspace (rev ?m)"
  have d: "?d \<noteq> []" using ne by (simp add: py_strip_def)
  then have m: "?m \<noteq> []" by (metis dropWhile.simps(1) rev.simps(1))
  have "\<not> py_isspace (hd ?m)" using m by (rule hd_dropWhile)
  moreover have "hd (py_strip s) = last ?d" using d by (simp add: py_strip_def hd_rev)
  moreover have "last ?d = last (rev ?m)"
    by (metis d append_take_drop_id last_appendR takeWhile_dropWhile_id)
  moreover have "last (rev ?m) = hd ?m" using m by (simp add: last_rev)
  ultimately show ?thesis by simp
qed

lemma py_strip_last: "py_strip s \<noteq> [] \<Longrightarrow> \<not> py_isspace (last (py_strip s))"
proof -
  assume ne: "py_strip s \<noteq> []"
  let ?d = "dropWhile py_isspace (rev (dropWhile py_isspace s))"
  have d: "?d \<noteq> []" using ne by (simp add: py_strip_def)
  have "\<not> py_isspace (hd ?d)" using d by (rule hd_dropWhile)
  moreover have "last (py_strip s) = hd ?d" using d by (simp add: py_strip_def last_rev)
  ultimately show ?thesis by simp
qed


lemma generate_caption_infer:
  assumes "load_model env app wd = (Inr True, app1, wd1)"
    and "caption_pipeline app1 = Some h"
    and "ensure_rgb env img = Inr rgb"
    and "call_pipeline env h rgb (ext wd1) = (r, x)"
  shows "generate_caption env (Some img) app wd =
           ((case r of
               Inl e \<Rightarrow> caption_except e
             | Inr result \<Rightarrow>
                 (case extract_caption result of Inl e \<Rightarrow> caption_except e | Inr s \<Rightarrow> Inr s)),
            app1, wd1\<lparr>ext := x, calls := calls wd1 @ [Infer h rgb]\<rparr>)"
  using assms
  by (simp add: generate_caption_def caption_try_def run_pipeline_def split: sum.splits)





lemma load_model_calls:
  "load_model env app wd = (r, app1, wd1) \<Longrightarrow>
   \<exists>new. calls wd1 = calls wd @ new \<and> (\<forall>h im. Infer h im \<notin> set new)"
  by (auto simp: load_model_def split: option.splits prod.splits sum.splits if_splits
        dest!: construct_calls)

lemma ensure_rgb_mode: "ensure_rgb env img = Inr rgb \<Longrightarrow> mode rgb = lit ''RGB''"
  by (auto simp: ensure_rgb_def convert_def split: if_splits sum.splits)

lemma ensure_rgb_converted:
  "ensure_rgb env img = Inr rgb \<Longrightarrow> mode img \<noteq> lit ''RGB'' \<Longrightarrow>
   \<exists>px. pil_convert env img (lit ''RGB'') = Inr px \<and> rgb = \<lparr>mode = lit ''RGB'', pixels = px\<rparr>"
  by (auto simp: ensure_rgb_def convert_def split: if_splits sum.splits)

lemma caption_try_calls:
  "caption_try env img app wd = (r, wd1) \<Longrightarrow>
   \<exists>new. calls wd1 = calls wd @ new \<and>
     (\<forall>h im. Infer h im \<in> set new \<longrightarrow> ensure_rgb env img = Inr im)"
  by (auto simp: caption_try_def run_pipeline_def split: sum.splits prod.splits option.splits)

lemma generate_caption_device:
  "generate_caption env upload app wd = (r, app1, wd1) \<Longrightarrow> device app = - 1 \<Longrightarrow> device app1 = - 1"
  by (auto simp: generate_caption_def split: option.splits prod.splits sum.splits if_splits
        dest: load_model_device)

lemma serve_device:
  "serve env uploads app wd = (rs, app1, wd1) \<Longrightarrow> device app = - 1 \<Longrightarrow> device app1 = - 1"
proof (induction uploads arbitrary: app wd rs)
  case Nil
  then show ?case by simp
next
  case (Cons upload uploads)
  obtain r a w where g: "generate_caption env upload app wd = (r, a, w)"
    by (cases "generate_caption env upload app wd") auto
  obtain rs' a' w' where s: "serve env uploads a w = (rs', a', w')"
    by (cases "serve env uploads a w") auto
  from Cons.prems(1) g s have e: "serve env uploads a w = (rs', app1, wd1)" by simp
  have "device a = - 1" using g Cons.prems(2) by (rule generate_caption_device)
  with e show ?case by (rule Cons.IH)
qed

lemma load_model_repeat_cached:
  "caption_pipeline app = Some h \<Longrightarrow>
   load_model_repeat env n app wd = (replicate n (Inr True, Some h), app, wd)"
  by (induction n) (simp_all add: load_model_cached)

lemma step_simps:
  "caption_pipeline app = Some h \<Longrightarrow> load_model_step env AtCheck app wd = (Returned True, app, wd)"
  "caption_pipeline app = None \<Longrightarrow> load_model_step env AtCheck app wd = (AtConstruct, app, wd)"
  "load_model_step env AtConstruct app wd = (AtCall (device app), app, wd)"
  "load_model_step env (AtCall d) app wd =
     (case construct env (model_name app) d wd of
        (Inr h, wd1) \<Rightarrow> (AtStore h, app, wd1)
      | (Inl e, wd1) \<Rightarrow> (AtHandler e, app, wd1))"
  "load_model_step env (AtStore h) app wd = (Returned True, app\<lparr>caption_pipeline := Some h\<rparr>, wd)"
  "load_model_step env (AtHandler e) app wd =
     (case py_str e of Inl e' \<Rightarrow> (Raised e', app, wd) | Inr logged \<Rightarrow> (AtTest, app, wd))"
  "load_model_step env AtTest app wd =
     (if device app = 0 then (AtRetry, app, wd) else (Returned False, app, wd))"
  "load_model_step env AtRetry app wd =
     (case construct env (model_name app) (- 1) wd of
        (Inr h, wd2) \<Rightarrow> (AtRetryStore h, app, wd2)
      | (Inl e2, wd2) \<Rightarrow> (AtRetryHandler e2, app, wd2))"
  "load_model_step env (AtRetryStore h) app wd = (AtSetDevice, app\<lparr>caption_pipeline := Some h\<rparr>, wd)"
  "load_model_step env AtSetDevice app wd = (Returned True, app\<lparr>device := - 1\<rparr>, wd)"
  "load_model_step env (AtRetryHandler e2) app wd =
     (case py_str e2 of Inl e3 \<Rightarrow> (Raised e3, app, wd) | Inr logged2 \<Rightarrow> (Returned False, app, wd))"
  "load_model_step env (Returned b) app wd = (Returned b, app, wd)"
  "load_model_step env (Raised e) app wd = (Raised e, app, wd)"
  by (simp_all add: load_model_step_def)

lemma run_single:
  "run_callers env (0 # sched) [p] app wd =
     (case load_model_step env p app wd of (p1, app1, wd1) \<Rightarrow> run_callers env sched [p1] app1 wd1)"
  by simp

lemma run_outcome: "run_callers env sched [outcome r] app wd = ([outcome r], app, wd)"
proof (induction sched)
  case Nil
  show ?case by simp
next
  case (Cons i sched)
  show ?case
  proof (cases i)
    case 0
    then show ?thesis using Cons.IH by (cases r) (simp_all add: step_simps)
  next
    case (Suc j)
    then show ?thesis using Cons.IH by simp
  qed
qed

lemma run_returned: "run_callers env sched [Returned b] app wd = ([Returned b], app, wd)"
  using run_outcome [of env sched "Inr b" app wd] by simp

lemma run_raised: "run_callers env sched [Raised e] app wd = ([Raised e], app, wd)"
  using run_outcome [of env sched "Inl e" app wd] by simp

lemma run_one_caller:
  assumes l: "load_model env app wd = (r, app2, wd2)"
  shows "run_callers env [0, 0, 0, 0, 0, 0, 0, 0] [AtCheck] app wd = ([outcome r], app2, wd2)"
proof (cases "caption_pipeline app")
  case (Some h)
  with l have "r = Inr True" "app2 = app" "wd2 = wd" by (simp_all add: load_model_def)
  then show ?thesis
    by (simp add: step_simps(1) [OF Some] step_simps(3-13))
next
  case None
  note s1 = step_simps(2) [OF None]
  obtain r1 wd1 where c: "construct env (model_name app) (device app) wd = (r1, wd1)"
    by (cases "construct env (model_name app) (device app) wd") auto
  show ?thesis
  proof (cases r1)
    case (Inr h)
    with l None c have "r = Inr True" "app2 = app\<lparr>caption_pipeline := Some h\<rparr>" "wd2 = wd1"
      by (simp_all add: load_model_def)
    then show ?thesis
      by (simp add: s1 step_simps(3-13) c Inr)
  next
    case (Inl e)
    show ?thesis
    proof (cases "py_str e")
      case (Inl e')
      with l None c \<open>r1 = Inl e\<close> have "r = Inl e'" "app2 = app" "wd2 = wd1"
        by (simp_all add: load_model_def)
      then show ?thesis
        by (simp add: s1 step_simps(3-13) c \<open>r1 = Inl e\<close> Inl)
    next
      case (Inr logged)
      show ?thesis
      proof (cases "device app = 0")
        case False
        with l None c Inl Inr have "r = Inr False" "app2 = app" "wd2 = wd1"
          by (simp_all add: load_model_def)
        then show ?thesis
          by (simp add: s1 step_simps(3-13) c Inl Inr False)
      next
        case True
        with c have c0: "construct env (model_name app) 0 wd = (r1, wd1)" by simp
        obtain r2 wd3 where c2: "construct env (model_name app) (- 1) wd1 = (r2, wd3)"
          by (cases "construct env (model_name app) (- 1) wd1") auto
        show ?thesis
        proof (cases r2)
          case h: (Inr h)
          with l None c Inl Inr True c2
          have "r = Inr True" "app2 = app\<lparr>caption_pipeline := Some h, device := - 1\<rparr>" "wd2 = wd3"
            by (simp_all add: load_model_def)
          then show ?thesis
            by (simp add: s1 step_simps(3-13) c0 Inl Inr True c2 h)
        next
          case e2: (Inl e2)
          show ?thesis
          proof (cases "py_str e2")
            case e3: (Inl e3)
            with l None c Inl Inr True c2 e2
            have "r = Inl e3" "app2 = app" "wd2 = wd3"
              by (simp_all add: load_model_def)
            then show ?thesis
              by (simp add: s1 step_simps(3-13) c0 Inl Inr True c2 e2 e3)
          next
            case l2: (Inr logged2)
            with l None c Inl Inr True c2 e2
            have "r = Inr False" "app2 = app" "wd2 = wd3"
              by (simp_all add: load_model_def)
            then show ?thesis
              by (simp add: s1 step_simps(3-13) c0 Inl Inr True c2 e2 l2)
          qed
        qed
      qed
    qed
  qed
qed


lemma filter_update_length:
  "i < length xs \<Longrightarrow>
   length (filter P (xs[i := y])) + (if P (xs ! i) then 1 else 0) =
   length (filter P xs) + (if P y then 1 else 0)"
proof (induction xs arbitrary: i)
  case Nil
  then show ?case by simp
next
  case (Cons x xs)
  show ?case
  proof (cases i)
    case 0
    then show ?thesis by simp
  next
    case (Suc j)
    with Cons.prems have "j < length xs" by simp
    from Cons.IH [OF this] Suc show ?thesis by (auto split: if_splits)
  qed
qed

lemma load_model_step_calls:
  assumes "load_model_step env p app wd = (p', app1, wd1)"
  shows "\<exists>new. calls wd1 = calls wd @ new \<and> constructions new \<and>
           (if before_call p then 1 else 0) \<le> length new + (if before_call p' then 1 else (0::nat))"
proof -
  have call: "\<exists>new. calls wd1 = calls wd @ new \<and> constructions new \<and> 1 \<le> length new"
    if "construct env name dev wd = (r, wd1)" for name dev r
  proof -
    from that have "calls wd1 = calls wd @ [Pipeline task name dev]" by (rule construct_calls)
    moreover have "constructions [Pipeline task name dev]" by (simp add: constructions_def)
    ultimately show ?thesis by force
  qed
  have quiet: "\<exists>new. calls wd1 = calls wd @ new \<and> constructions new \<and>
      (if before_call p then 1 else 0) \<le> length new + (if before_call p' then 1 else (0::nat))"
    if "wd1 = wd" "before_call p \<longrightarrow> before_call p'"
  proof -
    have "calls wd1 = calls wd @ []" using that by simp
    moreover have "constructions []" by (simp add: constructions_def)
    ultimately show ?thesis using that(2) by force
  qed
  show ?thesis
  proof (cases p)
    case AtCheck
    with assms show ?thesis by (intro quiet) (auto simp: load_model_step_def split: option.splits)
  next
    case AtConstruct
    with assms show ?thesis by (intro quiet) (auto simp: load_model_step_def)
  next
    case (AtCall d)
    with assms obtain r where "construct env (model_name app) d wd = (r, wd1)"
      by (auto simp: load_model_step_def split: prod.splits sum.splits)
    from call [OF this] show ?thesis by auto
  next
    case (AtStore h)
    with assms show ?thesis by (intro quiet) (auto simp: load_model_step_def)
  next
    case (AtHandler e)
    with assms show ?thesis by (intro quiet) (auto simp: load_model_step_def split: sum.splits)
  next
    case AtTest
    with assms show ?thesis by (intro quiet) (auto simp: load_model_step_def split: if_splits)
  next
    case AtRetry
    with assms obtain r where "construct env (model_name app) (- 1) wd = (r, wd1)"
      by (auto simp: load_model_step_def split: prod.splits sum.splits)
    from call [OF this] show ?thesis by auto
  next
    case (AtRetryStore h)
    with assms show ?thesis by (intro quiet) (auto simp: load_model_step_def)
  next
    case AtSetDevice
    with assms show ?thesis by (intro quiet) (auto simp: load_model_step_def)
  next
    case (AtRetryHandler e)
    with assms show ?thesis by (intro quiet) (auto simp: load_model_step_def split: sum.splits)
  next
    case (Returned b)
    with assms show ?thesis by (intro quiet) (auto simp: load_model_step_def)
  next
    case (Raised e)
    with assms show ?thesis by (intro quiet) (auto simp: load_model_step_def)
  qed
qed

lemma run_callers_calls:
  "run_callers env sched pcs app wd = (pcs1, app1, wd1) \<Longrightarrow>
   \<exists>new. calls wd1 = calls wd @ new \<and> constructions new \<and>
     length (filter before_call pcs) \<le> length new + length (filter before_call pcs1)"
proof (induction sched arbitrary: pcs app wd)
  case Nil
  then have "calls wd1 = calls wd @ []" "pcs1 = pcs" by simp_all
  then show ?case by (auto simp: constructions_def)
next
  case (Cons i sched)
  show ?case
  proof (cases "i < length pcs")
    case False
    with Cons.prems have "run_callers env sched pcs app wd = (pcs1, app1, wd1)" by simp
    then show ?thesis by (rule Cons.IH)
  next
    case True
    obtain p a w where s: "load_model_step env (pcs ! i) app wd = (p, a, w)"
      by (cases "load_model_step env (pcs ! i) app wd") auto
    with True Cons.prems have r: "run_callers env sched (pcs[i := p]) a w = (pcs1, app1, wd1)"
      by simp
    from load_model_step_calls [OF s] obtain new1 where
      n1: "calls w = calls wd @ new1" "constructions new1"
          "(if before_call (pcs ! i) then 1 else 0) \<le>
             length new1 + (if before_call p then 1 else (0::nat))"
      by blast
    from Cons.IH [OF r] obtain new2 where
      n2: "calls wd1 = calls w @ new2" "constructions new2"
          "length (filter before_call (pcs[i := p])) \<le>
             length new2 + length (filter before_call pcs1)"
      by blast
    have "calls wd1 = calls wd @ (new1 @ new2)" using n1(1) n2(1) by simp
    moreover have "constructions (new1 @ new2)"
      using n1(2) n2(2) by (simp add: constructions_def)
    moreover have "length (filter before_call pcs) \<le>
        length (new1 @ new2) + length (filter before_call pcs1)"
      using filter_update_length [OF True, of before_call p] n1(3) n2(3)
      by (simp split: if_splits)
    ultimately show ?thesis by blast
  qed
qed

lemma filter_replicate_before_call:
  "length (filter before_call (replicate n AtConstruct)) = n"
  by (induction n) simp_all

lemma load_model_step_cache:
  "caption_pipeline (fst (snd (load_model_step env p app wd))) =
     (if stores p = [] then caption_pipeline app else Some (last (stores p)))"
  by (cases p) (auto simp: load_model_step_def split: option.splits prod.splits sum.splits)

lemma run_callers_cache:
  "caption_pipeline (fst (snd (run_callers env sched pcs app wd))) =
     (if stored env sched pcs app wd = [] then caption_pipeline app
      else Some (last (stored env sched pcs app wd)))"
proof (induction sched arbitrary: pcs app wd)
  case Nil
  show ?case by simp
next
  case (Cons i sched)
  show ?case
  proof (cases "i < length pcs")
    case False
    then show ?thesis using Cons.IH [of pcs app wd] by simp
  next
    case True
    obtain p a w where s: "load_model_step env (pcs ! i) app wd = (p, a, w)"
      by (cases "load_model_step env (pcs ! i) app wd") auto
    have a: "caption_pipeline a =
        (if stores (pcs ! i) = [] then caption_pipeline app else Some (last (stores (pcs ! i))))"
      using load_model_step_cache [of env "pcs ! i" app wd] s by simp
    have r: "run_callers env (i # sched) pcs app wd = run_callers env sched (pcs[i := p]) a w"
      using True s by simp
    have t: "stored env (i # sched) pcs app wd = stores (pcs ! i) @ stored env sched (pcs[i := p]) a w"
      using True s by simp
    show ?thesis
      unfolding r t using Cons.IH [of "pcs[i := p]" a w] a by simp
  qed
qed

lemma stub_fresh_init:
  "caption_pipeline (init stub_fresh) = None" "device (init stub_fresh) = 0"
  by (simp_all add: init_def get_device_def stub_fresh_def stub_def)

lemma stub_fresh_pipeline: "pipeline stub_fresh t m d w = (Inr w, Suc w)"
  by (simp add: stub_fresh_def stub_def)

lemmas stub_simps =
  stub_def world0_def grey_def init_def get_device_def load_model_def construct_def
  ensure_rgb_def convert_def lit_def task_def

section \<open>Properties\<close>




text \<open>
  C2. With no image, \<^verbatim>\<open>generate_caption\<close> returns the upload prompt at once: the object
  and the outside world are unchanged, so neither \<^verbatim>\<open>load_model\<close> nor the pipeline ran
  (no call was recorded).
\<close>

theorem generate_caption_none:
  "generate_caption env None app wd = (Inr msg_upload, app, wd)"
  by (simp add: generate_caption_def)


text \<open>
  C5. When the pipeline object answers with no candidates, \<^verbatim>\<open>generate_caption\<close> returns
  the message that no caption could be generated, which is none of the messages for a
  fault.
\<close>

theorem generate_caption_empty_result:
  assumes "load_model env app wd = (Inr True, app1, wd1)"
    and "caption_pipeline app1 = Some h"
    and "ensure_rgb env img = Inr rgb"
    and "call_pipeline env h rgb (ext wd1) = (Inr [], x)"
  shows "fst (generate_caption env (Some img) app wd) = Inr msg_no_caption \<and>
         (\<forall>m. msg_no_caption \<noteq> msg_processing m) \<and>
         msg_no_caption \<noteq> msg_out_of_memory \<and> msg_no_caption \<noteq> msg_network"
proof -
  have "fst (generate_caption env (Some img) app wd) = Inr msg_no_caption"
    using generate_caption_infer [OF assms] by (simp add: extract_caption_def)
  moreover have "\<forall>m. msg_no_caption \<noteq> msg_processing m"
    by (simp add: msg_no_caption_def msg_processing_def cross_mark_def lit_def)
  moreover have "msg_no_caption \<noteq> msg_out_of_memory"
    by (simp add: msg_no_caption_def msg_out_of_memory_def cross_mark_def lit_def)
  moreover have "msg_no_caption \<noteq> msg_network"
    by (simp add: msg_no_caption_def msg_network_def cross_mark_def lit_def)
  ultimately show ?thesis by blast
qed

theorem generate_caption_empty_result_witness:
  "fst (generate_caption stub_empty (Some grey)
          (init stub_empty) world0) = Inr msg_no_caption"
proof -
  let ?env = "stub_empty"
  have "fst (generate_caption ?env (Some grey) (init ?env) world0) = Inr msg_no_caption \<and>
         (\<forall>m. msg_no_caption \<noteq> msg_processing m) \<and>
         msg_no_caption \<noteq> msg_out_of_memory \<and> msg_no_caption \<noteq> msg_network"
    by (rule generate_caption_empty_result
          [where ?app1.0 = "(init ?env)\<lparr>caption_pipeline := Some 7\<rparr>"
             and ?wd1.0 = "\<lparr>ext = 1, calls = [Pipeline task (model_name (init ?env)) 0]\<rparr>"
             and h = 7 and rgb = "\<lparr>mode = lit ''RGB'', pixels = 5\<rparr>" and x = 2])
       (simp_all add: stub_empty_def stub_simps)
  then show ?thesis by simp
qed

text \<open>
  C6. When the call of the pipeline object raises, the fault's text is put in lower case
  and searched: if it holds \<^verbatim>\<open>out of memory\<close> the out-of-memory guidance is returned,
  otherwise if it holds \<^verbatim>\<open>connection\<close> the network message, otherwise the
  processing-error message followed by the fault's own text.
\<close>

theorem generate_caption_classifies_fault:
  assumes "load_model env app wd = (Inr True, app1, wd1)"
    and "caption_pipeline app1 = Some h"
    and "ensure_rgb env img = Inr rgb"
    and "call_pipeline env h rgb (ext wd1) = (Inl (Exception error_msg), x)"
  shows "fst (generate_caption env (Some img) app wd) =
           Inr (if py_in (lit ''out of memory'') (py_lower error_msg) then msg_out_of_memory
                else if py_in (lit ''connection'') (py_lower error_msg) then msg_network
                else cross_mark @ lit '' Processing error: '' @ error_msg)"
  using generate_caption_infer [OF assms]
  by (simp add: caption_except_def msg_processing_def)

theorem generate_caption_classifies_fault_witness:
  "fst (generate_caption (stub_raises (lit ''CUDA Out Of Memory'')) (Some grey)
          (init (stub_raises (lit ''CUDA Out Of Memory''))) world0) = Inr msg_out_of_memory \<and>
   fst (generate_caption (stub_raises (lit ''Connection reset'')) (Some grey)
          (init (stub_raises (lit ''Connection reset''))) world0) = Inr msg_network \<and>
   fst (generate_caption (stub_raises (lit ''bad shape'')) (Some grey)
          (init (stub_raises (lit ''bad shape''))) world0) =
     Inr (cross_mark @ lit '' Processing error: bad shape'')"
proof -
  have w: "fst (generate_caption (stub_raises m) (Some grey) (init (stub_raises m)) world0) =
           Inr (if py_in (lit ''out of memory'') (py_lower m) then msg_out_of_memory
                else if py_in (lit ''connection'') (py_lower m) then msg_network
                else cross_mark @ lit '' Processing error: '' @ m)" for m
    by (rule generate_caption_classifies_fault
          [where ?app1.0 = "(init (stub_raises m))\<lparr>caption_pipeline := Some 7\<rparr>"
             and ?wd1.0 = "\<lparr>ext = 1, calls = [Pipeline task (model_name (init (stub_raises m))) 0]\<rparr>"
             and h = 7 and rgb = "\<lparr>mode = lit ''RGB'', pixels = 5\<rparr>" and x = 2])
       (simp_all add: stub_raises_def stub_simps)
  show ?thesis
    by (simp add: w py_lower_def lower_cp_def lit_def)
qed

text \<open>
  C10. A fault text that holds both \<^verbatim>\<open>out of memory\<close> and \<^verbatim>\<open>connection\<close> (in any
  case) gets the out-of-memory guidance: that test comes first.
\<close>

theorem generate_caption_oom_first:
  assumes "load_model env app wd = (Inr True, app1, wd1)"
    and "caption_pipeline app1 = Some h"
    and "ensure_rgb env img = Inr rgb"
    and "call_pipeline env h rgb (ext wd1) = (Inl (Exception error_msg), x)"
    and "py_in (lit ''out of memory'') (py_lower error_msg)"
    and "py_in (lit ''connection'') (py_lower error_msg)"
  shows "fst (generate_caption env (Some img) app wd) = Inr msg_out_of_memory \<and>
         msg_out_of_memory \<noteq> msg_network"
proof -
  have "fst (generate_caption env (Some img) app wd) = Inr msg_out_of_memory"
    using generate_caption_infer [OF assms(1-4)] assms(5)
    by (simp add: caption_except_def)
  moreover have "msg_out_of_memory \<noteq> msg_network"
    by (simp add: msg_out_of_memory_def msg_network_def cross_mark_def lit_def)
  ultimately show ?thesis ..
qed

theorem generate_caption_oom_first_witness:
  "py_in (lit ''out of memory'') (py_lower (lit ''Connection lost: device Out of Memory'')) \<and>
   py_in (lit ''connection'') (py_lower (lit ''Connection lost: device Out of Memory'')) \<and>
   fst (generate_caption (stub_raises (lit ''Connection lost: device Out of Memory'')) (Some grey)
          (init (stub_raises (lit ''Connection lost: device Out of Memory''))) world0) =
     Inr msg_out_of_memory"
proof -
  let ?m = "lit ''Connection lost: device Out of Memory''"
  have a: "py_in (lit ''out of memory'') (py_lower ?m)"
    by (simp add: py_lower_def lower_cp_def lit_def)
  have b: "py_in (lit ''connection'') (py_lower ?m)"
    by (simp add: py_lower_def lower_cp_def lit_def)
  have "fst (generate_caption (stub_raises ?m) (Some grey) (init (stub_raises ?m)) world0) =
          Inr msg_out_of_memory \<and> msg_out_of_memory \<noteq> msg_network"
    by (rule generate_caption_oom_first
          [where ?app1.0 = "(init (stub_raises ?m))\<lparr>caption_pipeline := Some 7\<rparr>"
             and ?wd1.0 = "\<lparr>ext = 1, calls = [Pipeline task (model_name (init (stub_raises ?m))) 0]\<rparr>"
             and h = 7 and rgb = "\<lparr>mode = lit ''RGB'', pixels = 5\<rparr>" and x = 2
             and error_msg = ?m, OF _ _ _ _ a b])
       (simp_all add: stub_raises_def stub_simps)
  with a b show ?thesis by blast
qed

text \<open>
  C7. When the pipeline object answers with at least one candidate,
  \<^verbatim>\<open>generate_caption\<close> returns the success marker, a space and the stripped
  \<^verbatim>\<open>generated_text\<close> of the first candidate. Stripping removes white space at both
  ends only, and what is left neither starts nor ends with white space.
\<close>

theorem generate_caption_success:
  assumes "load_model env app wd = (Inr True, app1, wd1)"
    and "caption_pipeline app1 = Some h"
    and "ensure_rgb env img = Inr rgb"
    and "call_pipeline env h rgb (ext wd1) = (Inr (c # cs), x)"
    and "c (lit ''generated_text'') = Some caption"
  shows "fst (generate_caption env (Some img) app wd) = Inr (direct_hit @ lit '' '' @ py_strip caption) \<and>
         (\<exists>l r. caption = l @ py_strip caption @ r \<and>
                (\<forall>ch \<in> set l. py_isspace ch) \<and> (\<forall>ch \<in> set r. py_isspace ch)) \<and>
         (py_strip caption \<noteq> [] \<longrightarrow>
            \<not> py_isspace (hd (py_strip caption)) \<and> \<not> py_isspace (last (py_strip caption)))"
proof -
  have "fst (generate_caption env (Some img) app wd) = Inr (direct_hit @ lit '' '' @ py_strip caption)"
    using generate_caption_infer [OF assms(1-4)] assms(5)
    by (simp add: extract_caption_def msg_success_def)
  then show ?thesis
    using py_strip_decomp [of caption] py_strip_hd [of caption] py_strip_last [of caption] by blast
qed

theorem generate_caption_success_witness:
  "fst (generate_caption (stub_caption (lit ''  a dog running  '')) (Some grey)
          (init (stub_caption (lit ''  a dog running  ''))) world0) =
     Inr (direct_hit @ lit '' a dog running'') \<and>
   py_strip (lit ''  a dog running  '') = lit ''a dog running''"
proof -
  let ?t = "lit ''  a dog running  ''"
  have "fst (generate_caption (stub_caption ?t) (Some grey) (init (stub_caption ?t)) world0) =
          Inr (direct_hit @ lit '' '' @ py_strip ?t) \<and>
         (\<exists>l r. ?t = l @ py_strip ?t @ r \<and>
                (\<forall>ch \<in> set l. py_isspace ch) \<and> (\<forall>ch \<in> set r. py_isspace ch)) \<and>
         (py_strip ?t \<noteq> [] \<longrightarrow>
            \<not> py_isspace (hd (py_strip ?t)) \<and> \<not> py_isspace (last (py_strip ?t)))"
    by (rule generate_caption_success
          [where ?app1.0 = "(init (stub_caption ?t))\<lparr>caption_pipeline := Some 7\<rparr>"
             and ?wd1.0 = "\<lparr>ext = 1, calls = [Pipeline task (model_name (init (stub_caption ?t))) 0]\<rparr>"
             and h = 7 and rgb = "\<lparr>mode = lit ''RGB'', pixels = 5\<rparr>" and x = 2
             and c = "[lit ''generated_text'' \<mapsto> ?t]" and cs = "[]"])
       (simp_all add: stub_caption_def stub_simps)
  moreover have "py_strip ?t = lit ''a dog running''"
    by (simp add: py_strip_def py_isspace_def lit_def)
  ultimately show ?thesis by (simp add: lit_def)
qed

text \<open>
  C8. Every image handed to the pipeline object during a call of \<^verbatim>\<open>generate_caption\<close>
  has mode \<^verbatim>\<open>RGB\<close>: it is the uploaded image when that is \<^verbatim>\<open>RGB\<close> already, and
  otherwise the image \<^verbatim>\<open>convert('RGB')\<close> returned.
\<close>

theorem generate_caption_infers_on_rgb:
  assumes "generate_caption env (Some img) app wd = (r, app2, wd2)"
  shows "\<exists>new. calls wd2 = calls wd @ new \<and>
           (\<forall>h im. Infer h im \<in> set new \<longrightarrow>
              mode im = lit ''RGB'' \<and> ensure_rgb env img = Inr im \<and>
              (mode img \<noteq> lit ''RGB'' \<longrightarrow>
                 (\<exists>px. pil_convert env img (lit ''RGB'') = Inr px \<and>
                       im = \<lparr>mode = lit ''RGB'', pixels = px\<rparr>)))"
proof -
  obtain l app1 wd1 where l: "load_model env app wd = (l, app1, wd1)"
    by (cases "load_model env app wd") auto
  from load_model_calls [OF l] obtain new1 where
    n1: "calls wd1 = calls wd @ new1" "\<forall>h im. Infer h im \<notin> set new1" by blast
  obtain t wd3 where t: "caption_try env img app1 wd1 = (t, wd3)"
    by (cases "caption_try env img app1 wd1") auto
  from caption_try_calls [OF t] obtain new2 where
    n2: "calls wd3 = calls wd1 @ new2"
        "\<forall>h im. Infer h im \<in> set new2 \<longrightarrow> ensure_rgb env img = Inr im" by blast
  have "wd2 = wd1 \<or> wd2 = wd3"
    using assms l t
    by (auto simp: generate_caption_def split: sum.splits if_splits)
  then have "\<exists>new. calls wd2 = calls wd @ new \<and>
               (\<forall>h im. Infer h im \<in> set new \<longrightarrow> ensure_rgb env img = Inr im)"
  proof
    assume "wd2 = wd1"
    with n1 show ?thesis by auto
  next
    assume "wd2 = wd3"
    with n1 n2 have "calls wd2 = calls wd @ (new1 @ new2)" by simp
    moreover have "\<forall>h im. Infer h im \<in> set (new1 @ new2) \<longrightarrow> ensure_rgb env img = Inr im"
      using n1(2) n2(2) by auto
    ultimately show ?thesis by blast
  qed
  then obtain new where new: "calls wd2 = calls wd @ new"
    "\<forall>h im. Infer h im \<in> set new \<longrightarrow> ensure_rgb env img = Inr im" by blast
  have "\<forall>h im. Infer h im \<in> set new \<longrightarrow>
          mode im = lit ''RGB'' \<and> ensure_rgb env img = Inr im \<and>
          (mode img \<noteq> lit ''RGB'' \<longrightarrow>
             (\<exists>px. pil_convert env img (lit ''RGB'') = Inr px \<and>
                   im = \<lparr>mode = lit ''RGB'', pixels = px\<rparr>))"
    using new(2) ensure_rgb_mode ensure_rgb_converted by blast
  with new(1) show ?thesis by blast
qed

theorem generate_caption_infers_on_rgb_witness:
  "mode grey \<noteq> lit ''RGB'' \<and>
   calls (snd (snd (generate_caption stub_empty (Some grey) (init stub_empty) world0))) =
     [Pipeline task (lit ''Salesforce/blip-image-captioning-base'') 0,
      Infer 7 \<lparr>mode = lit ''RGB'', pixels = 5\<rparr>] \<and>
   ensure_rgb stub_empty grey = Inr \<lparr>mode = lit ''RGB'', pixels = 5\<rparr>"
proof -
  let ?g = "generate_caption stub_empty (Some grey) (init stub_empty) world0"
  have c: "calls (snd (snd ?g)) =
     [Pipeline task (lit ''Salesforce/blip-image-captioning-base'') 0,
      Infer 7 \<lparr>mode = lit ''RGB'', pixels = 5\<rparr>]"
    by (simp add: generate_caption_def caption_try_def run_pipeline_def extract_caption_def
          stub_empty_def stub_simps)
  have "?g = (fst ?g, fst (snd ?g), snd (snd ?g))" by simp
  from generate_caption_infers_on_rgb [OF this] c
  have "ensure_rgb stub_empty grey = Inr \<lparr>mode = lit ''RGB'', pixels = 5\<rparr>"
    by (auto simp: world0_def)
  moreover have "mode grey \<noteq> lit ''RGB''" by (simp add: grey_def lit_def)
  ultimately show ?thesis using c by simp
qed

text \<open>
  C3. The claim says that a failed construction on the accelerated device switches the
  device to CPU before the retry. The program retries on CPU but assigns the field
  \<^verbatim>\<open>device\<close> only after the retry has succeeded: when every construction fails, the
  device is still the accelerated one after \<^verbatim>\<open>load_model\<close>, and the next call tries
  the accelerated device again.
\<close>

theorem load_model_failed_fallback_keeps_device:
  "caption_pipeline (init stub_down) = None \<and> device (init stub_down) = 0 \<and>
   fst (pipeline stub_down task (model_name (init stub_down)) 0 (ext world0)) =
     Inl (Exception (lit ''Connection refused'')) \<and>
   fst (load_model stub_down (init stub_down) world0) = Inr False \<and>
   device (fst (snd (load_model stub_down (init stub_down) world0))) = 0 \<and>
   calls (snd (snd (load_model_repeat stub_down 2 (init stub_down) world0))) =
     [Pipeline task (model_name (init stub_down)) 0, Pipeline task (model_name (init stub_down)) (- 1),
      Pipeline task (model_name (init stub_down)) 0, Pipeline task (model_name (init stub_down)) (- 1)]"
proof -
  let ?app = "init stub_down"
  let ?name = "model_name ?app"
  have i: "caption_pipeline ?app = None" "device ?app = 0"
    by (simp_all add: init_def get_device_def stub_down_def stub_def)
  have p: "pipeline stub_down t m d w = (Inl (Exception (lit ''Connection refused'')), Suc w)"
    for t m d w
    by (simp add: stub_down_def stub_def)
  have l: "load_model stub_down ?app wd =
             (Inr False, ?app,
              wd\<lparr>ext := Suc (Suc (ext wd)),
                 calls := calls wd @ [Pipeline task ?name 0, Pipeline task ?name (- 1)]\<rparr>)"
    for wd :: "(nat, nat, nat) world"
    by (simp add: load_model_def construct_def i p)
  have "calls (snd (snd (load_model_repeat stub_down 2 ?app world0))) =
          [Pipeline task ?name 0, Pipeline task ?name (- 1),
           Pipeline task ?name 0, Pipeline task ?name (- 1)]"
    by (simp add: numeral_2_eq_2 l world0_def)
  then show ?thesis
    by (simp add: i p l)
qed

text \<open>
  C3, as amended. With no pipeline cached and the accelerated device (\<open>0\<close>), a failed
  construction is followed by exactly one more, on CPU (\<open>- 1\<close>); if that succeeds the
  pipeline is cached, the device becomes CPU and \<^verbatim>\<open>load_model\<close> returns \<^verbatim>\<open>True\<close>; if it
  fails, \<^verbatim>\<open>load_model\<close> returns \<^verbatim>\<open>False\<close> and the object is unchanged. With another
  device, one failed construction makes \<^verbatim>\<open>load_model\<close> return \<^verbatim>\<open>False\<close> without a
  retry. Once the device is CPU it stays CPU through every later call of \<^verbatim>\<open>load_model\<close>
  and every run of submissions.

  This is the case \<open>Inr\<close> of \<open>py_str\<close> below, a fault whose text can be formed. The
  statement also covers the other case: a fault whose text cannot be formed is raised by
  \<^verbatim>\<open>load_model\<close> where the handler formats it, with the object unchanged.
\<close>

theorem load_model_fallback:
  "(caption_pipeline app = None \<and> device app = 0 \<and>
    pipeline env task (model_name app) 0 (ext wd) = (Inl e, x1) \<and>
    pipeline env task (model_name app) (- 1) x1 = (r2, x2) \<longrightarrow>
      load_model env app wd =
        (case py_str e of
           Inl e' \<Rightarrow>
             (Inl e', app,
              wd\<lparr>ext := x1, calls := calls wd @ [Pipeline task (model_name app) 0]\<rparr>)
         | Inr logged \<Rightarrow>
             (case r2 of
                Inr h \<Rightarrow>
                  (Inr True, app\<lparr>caption_pipeline := Some h, device := - 1\<rparr>,
                   wd\<lparr>ext := x2,
                      calls := calls wd @ [Pipeline task (model_name app) 0,
                                           Pipeline task (model_name app) (- 1)]\<rparr>)
              | Inl e2 \<Rightarrow>
                  (case py_str e2 of Inl e3 \<Rightarrow> Inl e3 | Inr logged2 \<Rightarrow> Inr False, app,
                   wd\<lparr>ext := x2,
                      calls := calls wd @ [Pipeline task (model_name app) 0,
                                           Pipeline task (model_name app) (- 1)]\<rparr>)))) \<and>
   (caption_pipeline app = None \<and> device app \<noteq> 0 \<and>
    pipeline env task (model_name app) (device app) (ext wd) = (Inl e, x1) \<longrightarrow>
      load_model env app wd =
        (case py_str e of Inl e' \<Rightarrow> Inl e' | Inr logged \<Rightarrow> Inr False, app,
         wd\<lparr>ext := x1, calls := calls wd @ [Pipeline task (model_name app) (device app)]\<rparr>)) \<and>
   (device app = - 1 \<longrightarrow>
      device (fst (snd (load_model env app wd))) = - 1 \<and>
      device (fst (snd (serve env uploads app wd))) = - 1)"
proof (intro conjI impI)
  assume a: "caption_pipeline app = None \<and> device app = 0 \<and>
    pipeline env task (model_name app) 0 (ext wd) = (Inl e, x1) \<and>
    pipeline env task (model_name app) (- 1) x1 = (r2, x2)"
  then show "load_model env app wd =
        (case py_str e of
           Inl e' \<Rightarrow>
             (Inl e', app,
              wd\<lparr>ext := x1, calls := calls wd @ [Pipeline task (model_name app) 0]\<rparr>)
         | Inr logged \<Rightarrow>
             (case r2 of
                Inr h \<Rightarrow>
                  (Inr True, app\<lparr>caption_pipeline := Some h, device := - 1\<rparr>,
                   wd\<lparr>ext := x2,
                      calls := calls wd @ [Pipeline task (model_name app) 0,
                                           Pipeline task (model_name app) (- 1)]\<rparr>)
              | Inl e2 \<Rightarrow>
                  (case py_str e2 of Inl e3 \<Rightarrow> Inl e3 | Inr logged2 \<Rightarrow> Inr False, app,
                   wd\<lparr>ext := x2,
                      calls := calls wd @ [Pipeline task (model_name app) 0,
                                           Pipeline task (model_name app) (- 1)]\<rparr>)))"
    by (auto simp: load_model_def construct_def split: sum.splits)
next
  assume "caption_pipeline app = None \<and> device app \<noteq> 0 \<and>
    pipeline env task (model_name app) (device app) (ext wd) = (Inl e, x1)"
  then show "load_model env app wd =
        (case py_str e of Inl e' \<Rightarrow> Inl e' | Inr logged \<Rightarrow> Inr False, app,
         wd\<lparr>ext := x1, calls := calls wd @ [Pipeline task (model_name app) (device app)]\<rparr>)"
    by (auto simp: load_model_def construct_def split: sum.splits)
next
  assume d: "device app = - 1"
  have "load_model env app wd =
          (fst (load_model env app wd), fst (snd (load_model env app wd)), snd (snd (load_model env app wd)))"
    by simp
  then show "device (fst (snd (load_model env app wd))) = - 1"
    using d by (rule load_model_device)
next
  assume d: "device app = - 1"
  have "serve env uploads app wd =
          (fst (serve env uploads app wd), fst (snd (serve env uploads app wd)),
           snd (snd (serve env uploads app wd)))"
    by simp
  then show "device (fst (snd (serve env uploads app wd))) = - 1"
    using d by (rule serve_device)
qed

theorem load_model_fallback_witness:
  "load_model stub_gpu_fails (init stub_gpu_fails) world0 =
     (Inr True,
      \<lparr>caption_pipeline = Some 7, device = - 1, model_name = lit ''Salesforce/blip-image-captioning-base''\<rparr>,
      \<lparr>ext = 2,
       calls = [Pipeline task (lit ''Salesforce/blip-image-captioning-base'') 0,
                Pipeline task (lit ''Salesforce/blip-image-captioning-base'') (- 1)]\<rparr>) \<and>
   load_model stub_down cpu_app world0 =
     (Inr False, cpu_app,
      \<lparr>ext = 1, calls = [Pipeline task (lit ''Salesforce/blip-image-captioning-base'') (- 1)]\<rparr>) \<and>
   device (fst (snd (serve stub_gpu_fails [Some grey, None, Some grey] cpu_app world0))) = - 1"
proof -
  have "load_model stub_gpu_fails (init stub_gpu_fails) world0 =
     (Inr True,
      \<lparr>caption_pipeline = Some 7, device = - 1, model_name = lit ''Salesforce/blip-image-captioning-base''\<rparr>,
      \<lparr>ext = 2,
       calls = [Pipeline task (lit ''Salesforce/blip-image-captioning-base'') 0,
                Pipeline task (lit ''Salesforce/blip-image-captioning-base'') (- 1)]\<rparr>)"
    using load_model_fallback
      [of "init stub_gpu_fails" stub_gpu_fails world0 "Exception (lit ''CUDA error'')" 1 "Inr 7" 2]
    by (simp add: stub_gpu_fails_def stub_def init_def get_device_def world0_def)
  moreover have "load_model stub_down cpu_app world0 =
     (Inr False, cpu_app,
      \<lparr>ext = 1, calls = [Pipeline task (lit ''Salesforce/blip-image-captioning-base'') (- 1)]\<rparr>)"
    using load_model_fallback
      [of cpu_app stub_down world0 "Exception (lit ''Connection refused'')" 1]
    by (simp add: stub_down_def stub_def cpu_app_def world0_def)
  moreover have
    "device (fst (snd (serve stub_gpu_fails [Some grey, None, Some grey] cpu_app world0))) = - 1"
    using load_model_fallback
      [where app = cpu_app and env = stub_gpu_fails and wd = world0
         and uploads = "[Some grey, None, Some grey]"]
    by (simp add: cpu_app_def)
  ultimately show ?thesis by blast
qed

text \<open>
  C4. After a call of \<^verbatim>\<open>load_model\<close> that returned \<^verbatim>\<open>True\<close> a pipeline is cached, and any
  number of further calls return \<^verbatim>\<open>True\<close> with the same cached pipeline and change
  neither the object nor the outside world, so they construct nothing. Starting without a
  pipeline, when the construction succeeds, \<open>n > 0\<close> calls in a row all return \<^verbatim>\<open>True\<close>
  with that one pipeline cached, and exactly one construction is recorded.
\<close>

theorem load_model_idempotent:
  "(load_model env app wd = (Inr True, app1, wd1) \<longrightarrow>
      caption_pipeline app1 \<noteq> None \<and>
      load_model_repeat env n app1 wd1 = (replicate n (Inr True, caption_pipeline app1), app1, wd1)) \<and>
   (caption_pipeline app = None \<and> 0 < n \<and>
    pipeline env task (model_name app) (device app) (ext wd) = (Inr h, x) \<longrightarrow>
      load_model_repeat env n app wd =
        (replicate n (Inr True, Some h), app\<lparr>caption_pipeline := Some h\<rparr>,
         wd\<lparr>ext := x, calls := calls wd @ [Pipeline task (model_name app) (device app)]\<rparr>))"
proof (intro conjI impI)
  assume l: "load_model env app wd = (Inr True, app1, wd1)"
  then show c: "caption_pipeline app1 \<noteq> None" by (rule load_model_True)
  then obtain h' where "caption_pipeline app1 = Some h'" by auto
  then show "load_model_repeat env n app1 wd1 =
               (replicate n (Inr True, caption_pipeline app1), app1, wd1)"
    by (simp add: load_model_repeat_cached)
next
  assume a: "caption_pipeline app = None \<and> 0 < n \<and>
    pipeline env task (model_name app) (device app) (ext wd) = (Inr h, x)"
  then obtain m where n: "n = Suc m" by (cases n) auto
  let ?app = "app\<lparr>caption_pipeline := Some h\<rparr>"
  let ?wd = "wd\<lparr>ext := x, calls := calls wd @ [Pipeline task (model_name app) (device app)]\<rparr>"
  have "load_model env app wd = (Inr True, ?app, ?wd)"
    using a by (simp add: load_model_def construct_def)
  moreover have "load_model_repeat env m ?app ?wd = (replicate m (Inr True, Some h), ?app, ?wd)"
    by (simp add: load_model_repeat_cached)
  ultimately show "load_model_repeat env n app wd = (replicate n (Inr True, Some h), ?app, ?wd)"
    by (simp add: n)
qed
theorem load_model_idempotent_witness:
  "load_model_repeat stub_empty 3 (init stub_empty) world0 =
     ([(Inr True, Some 7), (Inr True, Some 7), (Inr True, Some 7)],
      (init stub_empty)\<lparr>caption_pipeline := Some 7\<rparr>,
      \<lparr>ext = 1, calls = [Pipeline task (lit ''Salesforce/blip-image-captioning-base'') 0]\<rparr>) \<and>
   load_model_repeat stub_gpu_fails 2
     \<lparr>caption_pipeline = Some 7, device = - 1, model_name = lit ''Salesforce/blip-image-captioning-base''\<rparr>
     \<lparr>ext = 2,
      calls = [Pipeline task (lit ''Salesforce/blip-image-captioning-base'') 0,
               Pipeline task (lit ''Salesforce/blip-image-captioning-base'') (- 1)]\<rparr> =
     ([(Inr True, Some 7), (Inr True, Some 7)],
      \<lparr>caption_pipeline = Some 7, device = - 1, model_name = lit ''Salesforce/blip-image-captioning-base''\<rparr>,
      \<lparr>ext = 2,
       calls = [Pipeline task (lit ''Salesforce/blip-image-captioning-base'') 0,
                Pipeline task (lit ''Salesforce/blip-image-captioning-base'') (- 1)]\<rparr>)"
proof -
  have "load_model_repeat stub_empty 3 (init stub_empty) world0 =
     ([(Inr True, Some 7), (Inr True, Some 7), (Inr True, Some 7)],
      (init stub_empty)\<lparr>caption_pipeline := Some 7\<rparr>,
      \<lparr>ext = 1, calls = [Pipeline task (lit ''Salesforce/blip-image-captioning-base'') 0]\<rparr>)"
    using load_model_idempotent [of stub_empty "init stub_empty" world0 _ _ 3 7 1]
    by (simp add: stub_empty_def stub_def init_def get_device_def world0_def numeral_3_eq_3)
  moreover have "load_model_repeat stub_gpu_fails 2
     \<lparr>caption_pipeline = Some 7, device = - 1, model_name = lit ''Salesforce/blip-image-captioning-base''\<rparr>
     \<lparr>ext = 2,
      calls = [Pipeline task (lit ''Salesforce/blip-image-captioning-base'') 0,
               Pipeline task (lit ''Salesforce/blip-image-captioning-base'') (- 1)]\<rparr> =
     ([(Inr True, Some 7), (Inr True, Some 7)],
      \<lparr>caption_pipeline = Some 7, device = - 1, model_name = lit ''Salesforce/blip-image-captioning-base''\<rparr>,
      \<lparr>ext = 2,
       calls = [Pipeline task (lit ''Salesforce/blip-image-captioning-base'') 0,
                Pipeline task (lit ''Salesforce/blip-image-captioning-base'') (- 1)]\<rparr>)"
    using load_model_idempotent
      [where env = stub_gpu_fails and app = "init stub_gpu_fails" and wd = world0 and n = 2
         and ?app1.0 = "\<lparr>caption_pipeline = Some 7, device = - 1,
                          model_name = lit ''Salesforce/blip-image-captioning-base''\<rparr>"
         and ?wd1.0 = "\<lparr>ext = 2,
                         calls = [Pipeline task (lit ''Salesforce/blip-image-captioning-base'') 0,
                                  Pipeline task (lit ''Salesforce/blip-image-captioning-base'') (- 1)]\<rparr>"]
    by (simp add: stub_gpu_fails_def stub_def init_def get_device_def world0_def load_model_def
          construct_def numeral_2_eq_2)
  ultimately show ?thesis by blast
qed

text \<open>
  C9. The claim says that callers racing past the test of the cached pipeline cause one
  construction and all get the same pipeline. Two callers that both make the test before
  either has stored a pipeline each construct one: two constructions are recorded and the
  pipelines are different objects. The one whose assignment runs last stays cached, which
  is the second or the first one built, depending on the schedule.
\<close>

theorem load_model_race_constructs_twice:
  "run_callers stub_fresh [0, 1, 0, 1] [AtCheck, AtCheck] (init stub_fresh) world0 =
     ([AtCall 0, AtCall 0], init stub_fresh, world0) \<and>
   run_callers stub_fresh [0, 1, 0, 1, 0, 1, 0, 1] [AtCheck, AtCheck] (init stub_fresh) world0 =
     ([Returned True, Returned True],
      (init stub_fresh)\<lparr>caption_pipeline := Some 1\<rparr>,
      \<lparr>ext = 2,
       calls = [Pipeline task (model_name (init stub_fresh)) 0,
                Pipeline task (model_name (init stub_fresh)) 0]\<rparr>) \<and>
   run_callers stub_fresh [0, 1, 0, 1, 0, 1, 1, 0] [AtCheck, AtCheck] (init stub_fresh) world0 =
     ([Returned True, Returned True],
      (init stub_fresh)\<lparr>caption_pipeline := Some 0\<rparr>,
      \<lparr>ext = 2,
       calls = [Pipeline task (model_name (init stub_fresh)) 0,
                Pipeline task (model_name (init stub_fresh)) 0]\<rparr>)"
  by (simp add: step_simps(2-13) construct_def stub_fresh_init stub_fresh_pipeline world0_def)

text \<open>
  C9, as amended. \<^verbatim>\<open>load_model\<close> has no mutual exclusion. When \<open>n\<close> callers have passed the
  test and the schedule lets each of them make its first call of \<^verbatim>\<open>pipeline\<close>, at least
  \<open>n\<close> constructions are recorded, whatever the schedule. A caller whose call of
  \<^verbatim>\<open>pipeline\<close> returns a pipeline holds that pipeline and assigns it to
  \<^verbatim>\<open>self.caption_pipeline\<close> in a later step, whatever is cached then; after any schedule
  from any places the cached pipeline is the one assigned last (the one cached at the start
  when nothing was assigned). A caller that makes the test while a pipeline is cached
  returns \<^verbatim>\<open>True\<close> at once and changes nothing. A caller running alone does what
  \<^verbatim>\<open>load_model\<close> does.
\<close>

theorem load_model_unguarded:
  "(run_callers env sched (replicate n AtConstruct) app wd = (pcs, app1, wd1) \<and>
    (\<forall>p \<in> set pcs. \<not> before_call p) \<longrightarrow>
      (\<exists>new. calls wd1 = calls wd @ new \<and> constructions new \<and> n \<le> length new)) \<and>
   (pipeline env task (model_name app) d (ext wd) = (Inr h, x) \<longrightarrow>
      load_model_step env (AtCall d) app wd =
        (AtStore h, app, wd\<lparr>ext := x, calls := calls wd @ [Pipeline task (model_name app) d]\<rparr>)) \<and>
   (pipeline env task (model_name app) (- 1) (ext wd) = (Inr h, x) \<longrightarrow>
      load_model_step env AtRetry app wd =
        (AtRetryStore h, app,
         wd\<lparr>ext := x, calls := calls wd @ [Pipeline task (model_name app) (- 1)]\<rparr>)) \<and>
   load_model_step env (AtStore h) app wd = (Returned True, app\<lparr>caption_pipeline := Some h\<rparr>, wd) \<and>
   load_model_step env (AtRetryStore h) app wd = (AtSetDevice, app\<lparr>caption_pipeline := Some h\<rparr>, wd) \<and>
   caption_pipeline (fst (snd (run_callers env sched pcs0 app wd))) =
     (if stored env sched pcs0 app wd = [] then caption_pipeline app
      else Some (last (stored env sched pcs0 app wd))) \<and>
   (caption_pipeline app = Some h \<longrightarrow>
      load_model_step env AtCheck app wd = (Returned True, app, wd)) \<and>
   (load_model env app wd = (r, app2, wd2) \<longrightarrow>
      run_callers env [0, 0, 0, 0, 0, 0, 0, 0] [AtCheck] app wd = ([outcome r], app2, wd2))"
proof (intro conjI impI)
  assume a: "run_callers env sched (replicate n AtConstruct) app wd = (pcs, app1, wd1) \<and>
    (\<forall>p \<in> set pcs. \<not> before_call p)"
  then have "filter before_call pcs = []" by (simp add: filter_empty_conv)
  with run_callers_calls [of env sched "replicate n AtConstruct" app wd pcs app1 wd1] a
  show "\<exists>new. calls wd1 = calls wd @ new \<and> constructions new \<and> n \<le> length new"
    by (auto simp: filter_replicate_before_call)
next
  assume "pipeline env task (model_name app) d (ext wd) = (Inr h, x)"
  then show "load_model_step env (AtCall d) app wd =
        (AtStore h, app, wd\<lparr>ext := x, calls := calls wd @ [Pipeline task (model_name app) d]\<rparr>)"
    by (simp add: step_simps(4) construct_def)
next
  assume "pipeline env task (model_name app) (- 1) (ext wd) = (Inr h, x)"
  then show "load_model_step env AtRetry app wd =
        (AtRetryStore h, app,
         wd\<lparr>ext := x, calls := calls wd @ [Pipeline task (model_name app) (- 1)]\<rparr>)"
    by (simp add: step_simps(8) construct_def)
next
  show "load_model_step env (AtStore h) app wd =
          (Returned True, app\<lparr>caption_pipeline := Some h\<rparr>, wd)"
    by (rule step_simps(5))
next
  show "load_model_step env (AtRetryStore h) app wd =
          (AtSetDevice, app\<lparr>caption_pipeline := Some h\<rparr>, wd)"
    by (rule step_simps(9))
next
  show "caption_pipeline (fst (snd (run_callers env sched pcs0 app wd))) =
     (if stored env sched pcs0 app wd = [] then caption_pipeline app
      else Some (last (stored env sched pcs0 app wd)))"
    by (rule run_callers_cache)
next
  assume "caption_pipeline app = Some h"
  then show "load_model_step env AtCheck app wd = (Returned True, app, wd)"
    by (rule step_simps(1))
next
  assume "load_model env app wd = (r, app2, wd2)"
  then show "run_callers env [0, 0, 0, 0, 0, 0, 0, 0] [AtCheck] app wd = ([outcome r], app2, wd2)"
    by (rule run_one_caller)
qed

theorem load_model_unguarded_witness:
  "run_callers stub_fresh [0, 1, 0, 1, 1, 0] (replicate 2 AtConstruct) (init stub_fresh) world0 =
     ([Returned True, Returned True],
      (init stub_fresh)\<lparr>caption_pipeline := Some 0\<rparr>,
      \<lparr>ext = 2,
       calls = [Pipeline task (model_name (init stub_fresh)) 0,
                Pipeline task (model_name (init stub_fresh)) 0]\<rparr>) \<and>
   stored stub_fresh [0, 1, 0, 1, 1, 0] (replicate 2 AtConstruct) (init stub_fresh) world0 = [1, 0] \<and>
   (\<exists>new. [Pipeline task (model_name (init stub_fresh)) 0,
            Pipeline task (model_name (init stub_fresh)) 0] =
           calls world0 @ (new :: (nat, nat) event list) \<and> constructions new \<and> 2 \<le> length new) \<and>
   load_model_step stub_fresh AtCheck ((init stub_fresh)\<lparr>caption_pipeline := Some 0\<rparr>) world0 =
     (Returned True, (init stub_fresh)\<lparr>caption_pipeline := Some 0\<rparr>, world0) \<and>
   run_callers stub_fresh [0, 0, 0, 0, 0, 0, 0, 0] [AtCheck] (init stub_fresh) world0 =
     ([Returned True], (init stub_fresh)\<lparr>caption_pipeline := Some 0\<rparr>,
      \<lparr>ext = 1, calls = [Pipeline task (model_name (init stub_fresh)) 0]\<rparr>)"
proof -
  let ?app = "init stub_fresh"
  let ?two = "[Pipeline task (model_name ?app) 0, Pipeline task (model_name ?app) 0]"
  have r: "run_callers stub_fresh [0, 1, 0, 1, 1, 0] (replicate 2 AtConstruct) ?app world0 =
     ([Returned True, Returned True], ?app\<lparr>caption_pipeline := Some 0\<rparr>,
      \<lparr>ext = 2, calls = ?two\<rparr>)"
    by (simp add: step_simps(3-13) construct_def stub_fresh_init stub_fresh_pipeline world0_def
          numeral_2_eq_2)
  have s: "stored stub_fresh [0, 1, 0, 1, 1, 0] (replicate 2 AtConstruct) ?app world0 = [1, 0]"
    by (simp add: step_simps(3-13) construct_def stub_fresh_init stub_fresh_pipeline world0_def
          numeral_2_eq_2)
  have l: "load_model stub_fresh ?app world0 =
     (Inr True, ?app\<lparr>caption_pipeline := Some 0\<rparr>,
      \<lparr>ext = 1, calls = [Pipeline task (model_name ?app) 0]\<rparr>)"
    by (simp add: load_model_def construct_def stub_fresh_init stub_fresh_pipeline world0_def)
  note t1 = load_model_unguarded
    [where env = stub_fresh and sched = "[0, 1, 0, 1, 1, 0]" and n = 2 and app = ?app
       and wd = world0 and pcs = "[Returned True, Returned True]"
       and ?app1.0 = "?app\<lparr>caption_pipeline := Some 0\<rparr>"
       and ?wd1.0 = "\<lparr>ext = 2, calls = ?two\<rparr>"
       and r = "Inr True" and ?app2.0 = "?app\<lparr>caption_pipeline := Some 0\<rparr>"
       and ?wd2.0 = "\<lparr>ext = 1, calls = [Pipeline task (model_name ?app) 0]\<rparr>"]
  note t2 = load_model_unguarded
    [where env = stub_fresh and app = "?app\<lparr>caption_pipeline := Some 0\<rparr>" and wd = world0
       and h = 0]
  have "\<exists>new. ?two = calls world0 @ (new :: (nat, nat) event list) \<and> constructions new \<and>
          2 \<le> length new"
    using t1 r by simp
  moreover have "load_model_step stub_fresh AtCheck (?app\<lparr>caption_pipeline := Some 0\<rparr>) world0 =
     (Returned True, ?app\<lparr>caption_pipeline := Some 0\<rparr>, world0)"
    using t2 by simp
  moreover have "run_callers stub_fresh [0, 0, 0, 0, 0, 0, 0, 0] [AtCheck] ?app world0 =
     ([Returned True], ?app\<lparr>caption_pipeline := Some 0\<rparr>,
      \<lparr>ext = 1, calls = [Pipeline task (model_name ?app) 0]\<rparr>)"
    using t1 l by simp
  ultimately show ?thesis using r s by blast
qed

end
